theory Spec2Isabelle
  imports Complex_Main "HOL-Library.Stream"
begin

section \<open>Conventions of the embedding\<close>

text \<open>
  The Go packages \<^verbatim>\<open>stealth\<close> and \<^verbatim>\<open>config\<close> are embedded function by function.

  \<^item> Go's \<^verbatim>\<open>int\<close> is \<^typ>\<open>int\<close>; every quantity below stays far inside the 64-bit range for
    the inputs considered, so no wrap-around is written out. Go's integer division truncates
    towards zero (\<open>quo\<close> below), HOL's \<open>div\<close> rounds down.
  \<^item> Go's \<^verbatim>\<open>float64\<close> is idealised as \<^typ>\<open>real\<close>: rounding of floating-point arithmetic is
    not modelled. The conversion \<^verbatim>\<open>int(f)\<close> truncates towards zero (\<open>trunc\<close>).
  \<^item> A \<^verbatim>\<open>*rand.Rand\<close> is the stream of raw values it will deliver. \<^verbatim>\<open>Intn(n)\<close> panics for
    \<open>n \<le> 0\<close> and otherwise returns a value of \<open>[0, n)\<close>; \<^verbatim>\<open>Float64()\<close> returns \<open>k / 2^53\<close> with
    \<open>0 \<le> k < 2^53\<close>. Each call consumes one raw value.
  \<^item> A panic, a run-time error and an error returned by a remote call are values of the type
    \<open>failure\<close>; a function that can fail returns \<open>failure + result\<close>.
  \<^item> The remote side (\<^verbatim>\<open>rod.Page\<close>, \<^verbatim>\<open>rod.Element\<close>) is a parameter telling which of the
    checked remote calls succeed. What the Go code sends to the page and the durations it
    sleeps are recorded, in order, as a list of events, one constructor per call site.
  \<^item> A \<^verbatim>\<open>time.Duration\<close> is an \<^typ>\<open>int\<close> number of nanoseconds.
\<close>

datatype failure =
    IntnPanic          \<comment> \<open>\<^verbatim>\<open>rand.Intn\<close> called with an argument \<open>\<le> 0\<close>\<close>
  | DivideByZero       \<comment> \<open>integer division by zero\<close>
  | IndexOutOfRange    \<comment> \<open>slice index out of range\<close>
  | MakeSliceLen       \<comment> \<open>\<^verbatim>\<open>make\<close> with a negative length\<close>
  | RemoteError        \<comment> \<open>a remote call returned a non-nil error, which the function returns\<close>
  | LoadLocationError  \<comment> \<open>\<^verbatim>\<open>time.LoadLocation\<close> returned an error\<close>

type_synonym rng = "nat stream"

type_synonym Duration = int

definition Millisecond :: Duration where
  "Millisecond = 1000000"

definition Intn :: "int \<Rightarrow> rng \<Rightarrow> failure + (int \<times> rng)" where
  "Intn n r = (if n \<le> 0 then Inl IntnPanic else Inr (int (shd r) mod n, stl r))"

definition Float64 :: "rng \<Rightarrow> real \<times> rng" where
  "Float64 r = (real (shd r mod 2 ^ 53) / 2 ^ 53, stl r)"

definition quo :: "int \<Rightarrow> int \<Rightarrow> int" where
  "quo a b = sgn a * sgn b * (\<bar>a\<bar> div \<bar>b\<bar>)"


text \<open>Sequencing of fallible computations: the first failure is the result.\<close>

definition andThen :: "failure + 'a \<Rightarrow> ('a \<Rightarrow> failure + 'b) \<Rightarrow> failure + 'b" where
  "andThen m f = (case m of Inl e \<Rightarrow> Inl e | Inr x \<Rightarrow> f x)"

text \<open>
  A block of statements that draws from the generator and emits events has the type
  \<open>rng \<Rightarrow> failure + ('e list \<times> rng)\<close>. \<open>seq\<close> runs two blocks one after the other;
  \<open>forEach\<close> is a \<^verbatim>\<open>for\<close> loop whose body is run once per element, in order, and which stops
  at the first failure.
\<close>

type_synonym 'e block = "rng \<Rightarrow> failure + ('e list \<times> rng)"

definition seq :: "'e block \<Rightarrow> 'e block \<Rightarrow> 'e block" where
  "seq p q r =
     andThen (p r) (\<lambda>(es1, r1).
     andThen (q r1) (\<lambda>(es2, r2).
     Inr (es1 @ es2, r2)))"

definition emit :: "'e list \<Rightarrow> 'e block" where
  "emit es r = Inr (es, r)"

fun forEach :: "('a \<Rightarrow> 'e block) \<Rightarrow> 'a list \<Rightarrow> 'e block" where
  "forEach body [] r = Inr ([], r)"
| "forEach body (x # xs) r = seq (body x) (forEach body xs) r"


section \<open>Scheduler (package stealth)\<close>

text \<open>
  \<^verbatim>\<open>time.Now().In(s.timezone)\<close> is the local civil time, an input of the model: the civil day
  counted from 1970-01-01 (a Thursday) and the time of day. \<^verbatim>\<open>time.Date\<close> with a day or an
  hour out of range normalises into the neighbouring days, which on day numbers is addition.
  A \<^verbatim>\<open>*time.Location\<close> is kept abstract (type variable \<open>'loc\<close>); \<^verbatim>\<open>time.LoadLocation\<close> is
  the parameter \<open>LoadLocation\<close>, which yields \<open>None\<close> for an identifier it cannot resolve.
\<close>

datatype Weekday = Sunday | Monday | Tuesday | Wednesday | Thursday | Friday | Saturday

record LocalTime =
  Day :: int
  Hour :: int
  Minute :: int
  Second :: int

definition Weekday_of :: "LocalTime \<Rightarrow> Weekday" where
  "Weekday_of t =
     [Sunday, Monday, Tuesday, Wednesday, Thursday, Friday, Saturday] ! nat ((Day t + 4) mod 7)"

definition Date :: "int \<Rightarrow> int \<Rightarrow> LocalTime" where
  "Date d h = \<lparr>Day = d + h div 24, Hour = h mod 24, Minute = 0, Second = 0\<rparr>"

definition Before :: "LocalTime \<Rightarrow> LocalTime \<Rightarrow> bool" where
  "Before a b \<longleftrightarrow>
     Day a < Day b \<or>
     (Day a = Day b \<and>
      Hour a * 3600 + Minute a * 60 + Second a < Hour b * 3600 + Minute b * 60 + Second b)"

record 'loc Scheduler =
  businessHoursStart :: int
  businessHoursEnd :: int
  timezone :: 'loc
  weekendActivity :: bool
  breakDurationMin :: int
  breakDurationMax :: int
  breakProbability :: real

definition NewScheduler ::
  "(string \<Rightarrow> 'loc option) \<Rightarrow> int \<Rightarrow> int \<Rightarrow> string \<Rightarrow> bool \<Rightarrow> int \<Rightarrow> int \<Rightarrow> real
     \<Rightarrow> failure + 'loc Scheduler" where
  "NewScheduler LoadLocation bhStart bhEnd tz weekend brMin brMax brProb =
     (case LoadLocation tz of
        None \<Rightarrow> Inl LoadLocationError
      | Some loc \<Rightarrow>
          Inr \<lparr>businessHoursStart = bhStart, businessHoursEnd = bhEnd, timezone = loc,
               weekendActivity = weekend, breakDurationMin = brMin, breakDurationMax = brMax,
               breakProbability = brProb\<rparr>)"

definition IsBusinessHours :: "'loc Scheduler \<Rightarrow> LocalTime \<Rightarrow> bool" where
  "IsBusinessHours s now =
     (if \<not> weekendActivity s \<and> (Weekday_of now = Saturday \<or> Weekday_of now = Sunday)
      then False
      else Hour now \<ge> businessHoursStart s \<and> Hour now < businessHoursEnd s)"

text \<open>The body of the loop of \<^verbatim>\<open>WaitForBusinessHours\<close>: the time it sleeps until.\<close>

definition nextBusinessTime :: "'loc Scheduler \<Rightarrow> LocalTime \<Rightarrow> LocalTime" where
  "nextBusinessTime s now =
     (if Weekday_of now = Saturday then Date (Day now + 2) (businessHoursStart s)
      else if Weekday_of now = Sunday then Date (Day now + 1) (businessHoursStart s)
      else if Hour now < businessHoursStart s then Date (Day now) (businessHoursStart s)
      else Date (Day now + 1) (businessHoursStart s))"

text \<open>
  \<^verbatim>\<open>time.Sleep(time.Until(t))\<close> returns at \<open>t\<close>, or at once when \<open>t\<close> is not in the future.
\<close>

definition sleepUntil :: "LocalTime \<Rightarrow> LocalTime \<Rightarrow> LocalTime" where
  "sleepUntil now t = (if Before now t then t else now)"

text \<open>
  \<^verbatim>\<open>WaitForBusinessHours\<close>: the loop runs until \<^verbatim>\<open>IsBusinessHours\<close> holds; the result is the
  local time at which it returns, \<open>None\<close> when it never does.
\<close>

partial_function (option) WaitForBusinessHours :: "'loc Scheduler \<Rightarrow> LocalTime \<Rightarrow> LocalTime option"
  where
  "WaitForBusinessHours s now =
     (if IsBusinessHours s now then Some now
      else WaitForBusinessHours s (sleepUntil now (nextBusinessTime s now)))"


section \<open>Configuration (package config)\<close>

text \<open>
  The nested \<^verbatim>\<open>Config\<close> struct, flattened: the field \<^verbatim>\<open>config.Stealth.Typing.WPMMin\<close> is
  \<open>Stealth_Typing_WPMMin\<close>. The fields that \<^verbatim>\<open>validateConfig\<close> reads and the ones handed
  to the constructors of package stealth are kept; filters, templates, logging and the
  remaining browser settings are read by neither and are left out.
\<close>

record Config =
  Search_MaxResults :: int
  Connections_DailyLimit :: int
  Messaging_DailyLimit :: int
  Browser_TimeoutSeconds :: int
  Browser_UserAgents :: "string list"
  Stealth_Mouse_BezierPoints :: int
  Stealth_Mouse_SpeedVariation :: real
  Stealth_Mouse_OvershootProbability :: real
  Stealth_Mouse_MicroCorrectionProbability :: real
  Stealth_Typing_WPMMin :: int
  Stealth_Typing_WPMMax :: int
  Stealth_Typing_TypoProbability :: real
  Stealth_Typing_PauseProbability :: real
  Stealth_Scrolling_SpeedMin :: int
  Stealth_Scrolling_SpeedMax :: int
  Stealth_Scrolling_ScrollBackProbability :: real
  Stealth_Scrolling_PauseProbability :: real
  Stealth_Scheduling_BusinessHoursStart :: int
  Stealth_Scheduling_BusinessHoursEnd :: int
  Stealth_Scheduling_Timezone :: string
  Stealth_Scheduling_WeekendActivity :: bool
  Stealth_Scheduling_BreakDurationMin :: int
  Stealth_Scheduling_BreakDurationMax :: int
  Stealth_Scheduling_BreakProbability :: real

text \<open>\<^verbatim>\<open>validateConfig\<close>: \<open>None\<close> is the nil error, \<open>Some msg\<close> the error returned.\<close>

definition validateConfig :: "(string \<Rightarrow> 'loc option) \<Rightarrow> Config \<Rightarrow> string option" where
  "validateConfig LoadLocation config =
     (if Search_MaxResults config \<le> 0 then
        Some ''search.max_results must be greater than 0''
      else if Connections_DailyLimit config \<le> 0 then
        Some ''connections.daily_limit must be greater than 0''
      else if Messaging_DailyLimit config \<le> 0 then
        Some ''messaging.daily_limit must be greater than 0''
      else if Browser_TimeoutSeconds config \<le> 0 then
        Some ''browser.timeout_seconds must be greater than 0''
      else if length (Browser_UserAgents config) = 0 then
        Some ''browser.user_agents must contain at least one user agent''
      else if LoadLocation (Stealth_Scheduling_Timezone config) = None then
        Some ''invalid timezone''
      else None)"


section \<open>Typer (package stealth, typing.go)\<close>

text \<open>
  The generator held in the field \<^verbatim>\<open>rand\<close> of each component is seeded from the clock; in the
  model it is the \<open>rng\<close> argument of the methods, not a field.
\<close>

record Typer =
  wpmMin :: int
  wpmMax :: int
  typoProbability :: real
  pauseProbability :: real

definition NewTyper :: "int \<Rightarrow> int \<Rightarrow> real \<Rightarrow> real \<Rightarrow> Typer" where
  "NewTyper wMin wMax typoProb pauseProb =
     \<lparr>wpmMin = wMin, wpmMax = wMax, typoProbability = typoProb, pauseProbability = pauseProb\<rparr>"

text \<open>
  A \<^verbatim>\<open>rune\<close> is its code point. \<^verbatim>\<open>for i, char := range text\<close> visits the runes of the text
  with the byte offset at which each starts; the text is given as its runes, and
  \<open>rangeText\<close> pairs them with these offsets (\<open>runeLen\<close> is the length of the UTF-8
  encoding).
\<close>

type_synonym rune = nat

definition runeLen :: "rune \<Rightarrow> int" where
  "runeLen c = (if c < 128 then 1 else if c < 2048 then 2 else if c < 65536 then 3 else 4)"

fun rangeFrom :: "int \<Rightarrow> rune list \<Rightarrow> (int \<times> rune) list" where
  "rangeFrom i [] = []"
| "rangeFrom i (c # cs) = (i, c) # rangeFrom (i + runeLen c) cs"

definition rangeText :: "rune list \<Rightarrow> (int \<times> rune) list" where
  "rangeText text = rangeFrom 0 text"

text \<open>
  The events of \<^verbatim>\<open>TypeText\<close>, one constructor per call site: the six \<^verbatim>\<open>time.Sleep\<close> calls
  and the three keyboard calls.
\<close>

datatype key_event =
    PrePause Duration        \<comment> \<open>sleep before some characters\<close>
  | TypoChar rune            \<comment> \<open>\<^verbatim>\<open>Keyboard.Type\<close> of the wrong character\<close>
  | TypoDelay Duration       \<comment> \<open>sleep after the wrong character\<close>
  | Backspace                \<comment> \<open>\<^verbatim>\<open>Keyboard.Press(input.Backspace)\<close>\<close>
  | BackspaceDelay Duration  \<comment> \<open>sleep after the backspace\<close>
  | RealChar rune            \<comment> \<open>\<^verbatim>\<open>Keyboard.Type\<close> of the character of the text\<close>
  | CharDelay Duration       \<comment> \<open>sleep between characters\<close>
  | PunctPause Duration      \<comment> \<open>longer pause after punctuation\<close>
  | WordPause Duration       \<comment> \<open>pause between words\<close>

definition getRandomChar :: "rng \<Rightarrow> failure + (rune \<times> rng)" where
  "getRandomChar r =
     andThen (Intn (int (length ''abcdefghijklmnopqrstuvwxyz'')) r) (\<lambda>(k, r1).
     Inr (of_char (''abcdefghijklmnopqrstuvwxyz'' ! nat k), r1))"

text \<open>The blocks of the loop body of \<^verbatim>\<open>TypeText\<close>, in the order of the source.\<close>

definition prePause :: "Typer \<Rightarrow> key_event block" where
  "prePause t r =
     (let (u, r1) = Float64 r in
      if u < pauseProbability t then
        andThen (Intn 500 r1) (\<lambda>(k, r2).
        Inr ([PrePause ((200 + k) * Millisecond)], r2))
      else Inr ([], r1))"

definition simulateTypo :: "Typer \<Rightarrow> int \<Rightarrow> int \<Rightarrow> key_event block" where
  "simulateTypo t msPerChar i r =
     (let (u, r1) = Float64 r in
      if u < typoProbability t \<and> i > 0 then
        andThen (getRandomChar r1) (\<lambda>(wrongChar, r2).
        andThen (Intn 100 r2) (\<lambda>(k1, r3).
        andThen (Intn 100 r3) (\<lambda>(k2, r4).
        Inr ([TypoChar wrongChar, TypoDelay ((msPerChar + k1) * Millisecond),
              Backspace, BackspaceDelay ((msPerChar + k2) * Millisecond)], r4))))
      else Inr ([], r1))"

definition typeChar :: "int \<Rightarrow> rune \<Rightarrow> key_event block" where
  "typeChar msPerChar char r =
     andThen (Intn (quo msPerChar 2) r) (\<lambda>(k, r1).
     Inr ([RealChar char, CharDelay ((msPerChar + k - quo msPerChar 4) * Millisecond)], r1))"

definition punctuationPause :: "rune \<Rightarrow> key_event block" where
  "punctuationPause char r =
     (if char = of_char CHR ''.'' \<or> char = of_char CHR '','' \<or> char = of_char CHR ''!''
         \<or> char = of_char CHR ''?'' then
        andThen (Intn 300 r) (\<lambda>(k, r1). Inr ([PunctPause ((100 + k) * Millisecond)], r1))
      else Inr ([], r))"

definition wordPause :: "rune \<Rightarrow> key_event block" where
  "wordPause char r =
     (if char = of_char CHR '' '' then
        andThen (Intn 150 r) (\<lambda>(k, r1). Inr ([WordPause ((50 + k) * Millisecond)], r1))
      else Inr ([], r))"

definition typeStep :: "Typer \<Rightarrow> int \<Rightarrow> int \<times> rune \<Rightarrow> key_event block" where
  "typeStep t msPerChar ic =
     (case ic of (i, char) \<Rightarrow>
        seq (prePause t)
       (seq (simulateTypo t msPerChar i)
       (seq (typeChar msPerChar char)
       (seq (punctuationPause char)
            (wordPause char)))))"

text \<open>
  \<^verbatim>\<open>TypeText\<close>. \<open>focusOk\<close> tells whether \<^verbatim>\<open>element.Focus()\<close> succeeds; the errors of the
  keyboard calls are ignored by the source.
\<close>

definition TypeText :: "Typer \<Rightarrow> bool \<Rightarrow> rune list \<Rightarrow> key_event block" where
  "TypeText t focusOk text r =
     (if \<not> focusOk then Inl RemoteError
      else
        andThen (Intn (wpmMax t - wpmMin t + 1) r) (\<lambda>(k, r1).
        let wpm = wpmMin t + k;
            cpm = wpm * 5
        in if cpm = 0 then Inl DivideByZero
           else forEach (typeStep t (quo 60000 cpm)) (rangeText text) r1))"


text \<open>
  Reading a trace: the characters of the text typed, in order (wrong characters are not
  among them), and whether an event is a keyboard call.
\<close>

fun realChars :: "key_event list \<Rightarrow> rune list" where
  "realChars [] = []"
| "realChars (RealChar c # es) = c # realChars es"
| "realChars (e # es) = realChars es"

fun isKeyboard :: "key_event \<Rightarrow> bool" where
  "isKeyboard (TypoChar c) = True"
| "isKeyboard Backspace = True"
| "isKeyboard (RealChar c) = True"
| "isKeyboard e = False"


section \<open>Scroller (package stealth)\<close>

record Scroller =
  speedMin :: int
  speedMax :: int
  scrollBackProbability :: real
  scrollPauseProbability :: real  \<comment> \<open>the field \<^verbatim>\<open>pauseProbability\<close> of \<^verbatim>\<open>Scroller\<close>\<close>

definition NewScroller :: "int \<Rightarrow> int \<Rightarrow> real \<Rightarrow> real \<Rightarrow> Scroller" where
  "NewScroller sMin sMax scrollBackProb pauseProb =
     \<lparr>speedMin = sMin, speedMax = sMax, scrollBackProbability = scrollBackProb,
      scrollPauseProbability = pauseProb\<rparr>"

text \<open>
  The events of \<^verbatim>\<open>ScrollDown\<close> and \<^verbatim>\<open>ScrollUp\<close>. \<open>ScrollChunk y steps\<close> is the call
  \<^verbatim>\<open>page.Mouse.Scroll(0, y, steps)\<close> of a chunk, \<open>ScrollBack y\<close> the corrective call
  \<^verbatim>\<open>page.Mouse.Scroll(0, y, 1)\<close>.
\<close>

datatype scroll_event =
    ScrollChunk int int
  | ChunkDelay Duration     \<comment> \<open>variable delay between scrolls\<close>
  | RandomPause Duration    \<comment> \<open>random pause\<close>
  | ScrollBack int
  | SettleDelay Duration    \<comment> \<open>sleep after the scroll back\<close>

text \<open>
  The blocks of the loop bodies. \<open>scrollOk i\<close> tells whether the checked call
  \<^verbatim>\<open>page.Mouse.Scroll\<close> of iteration \<open>i\<close> succeeds; the result of the scroll back is ignored
  by the source.
\<close>

definition scrollAmount :: "int \<Rightarrow> rng \<Rightarrow> failure + (int \<times> rng)" where
  "scrollAmount chunkSize r =
     andThen (Intn (quo chunkSize 2) r) (\<lambda>(k, r1).
     Inr (chunkSize + k - quo chunkSize 4, r1))"

definition chunkDelay :: "Scroller \<Rightarrow> scroll_event block" where
  "chunkDelay s r =
     andThen (Intn (speedMax s - speedMin s + 1) r) (\<lambda>(k, r1).
     Inr ([ChunkDelay ((speedMin s + k) * Millisecond)], r1))"

definition randomPause :: "Scroller \<Rightarrow> scroll_event block" where
  "randomPause s r =
     (let (u, r1) = Float64 r in
      if u < scrollPauseProbability s then
        andThen (Intn 1500 r1) (\<lambda>(k, r2).
        Inr ([RandomPause ((500 + k) * Millisecond)], r2))
      else Inr ([], r1))"

definition randomScrollBack :: "Scroller \<Rightarrow> int \<Rightarrow> scroll_event block" where
  "randomScrollBack s amount r =
     (let (u, r1) = Float64 r in
      if u < scrollBackProbability s then
        andThen (Intn (quo amount 2) r1) (\<lambda>(scrollBack, r2).
        andThen (Intn 300 r2) (\<lambda>(k, r3).
        Inr ([ScrollBack (- scrollBack), SettleDelay ((200 + k) * Millisecond)], r3)))
      else Inr ([], r1))"

definition scrollDownStep ::
  "Scroller \<Rightarrow> (nat \<Rightarrow> bool) \<Rightarrow> int \<Rightarrow> int \<Rightarrow> nat \<Rightarrow> scroll_event block" where
  "scrollDownStep s scrollOk chunks chunkSize i r =
     andThen (scrollAmount chunkSize r) (\<lambda>(amount, r1).
     if \<not> scrollOk i then Inl RemoteError
     else
       seq (emit [ScrollChunk amount chunks])
      (seq (chunkDelay s)
      (seq (randomPause s)
           (randomScrollBack s amount))) r1)"

definition ScrollDown :: "Scroller \<Rightarrow> (nat \<Rightarrow> bool) \<Rightarrow> int \<Rightarrow> scroll_event block" where
  "ScrollDown s scrollOk distance r =
     andThen (Intn 10 r) (\<lambda>(k, r1).
     let chunks = 5 + k;
         chunkSize = quo distance chunks
     in forEach (scrollDownStep s scrollOk chunks chunkSize) [0..<nat chunks] r1)"

definition scrollUpStep ::
  "Scroller \<Rightarrow> (nat \<Rightarrow> bool) \<Rightarrow> int \<Rightarrow> int \<Rightarrow> nat \<Rightarrow> scroll_event block" where
  "scrollUpStep s scrollOk chunks chunkSize i r =
     andThen (scrollAmount chunkSize r) (\<lambda>(amount, r1).
     if \<not> scrollOk i then Inl RemoteError
     else
       seq (emit [ScrollChunk (- amount) chunks])
      (seq (chunkDelay s)
           (randomPause s)) r1)"

definition ScrollUp :: "Scroller \<Rightarrow> (nat \<Rightarrow> bool) \<Rightarrow> int \<Rightarrow> scroll_event block" where
  "ScrollUp s scrollOk distance r =
     andThen (Intn 10 r) (\<lambda>(k, r1).
     let chunks = 5 + k;
         chunkSize = quo distance chunks
     in forEach (scrollUpStep s scrollOk chunks chunkSize) [0..<nat chunks] r1)"

text \<open>
  The derived operations. What the page reports (element position \<open>yVal\<close>, viewport
  height, scroll offset, document height) is an argument.
\<close>

definition ScrollToElement ::
  "Scroller \<Rightarrow> (nat \<Rightarrow> bool) \<Rightarrow> int \<Rightarrow> int \<Rightarrow> int \<Rightarrow> scroll_event block" where
  "ScrollToElement s scrollOk yVal viewport currentScroll r =
     (let targetScroll = yVal - quo viewport 2;
          distance = targetScroll - currentScroll
      in if distance > 0 then ScrollDown s scrollOk distance r
         else if distance < 0 then ScrollUp s scrollOk (- distance) r
         else Inr ([], r))"

definition ScrollToBottom :: "Scroller \<Rightarrow> (nat \<Rightarrow> bool) \<Rightarrow> int \<Rightarrow> int \<Rightarrow> scroll_event block" where
  "ScrollToBottom s scrollOk pageHeight currentScroll r =
     ScrollDown s scrollOk (pageHeight - currentScroll) r"

definition ScrollToTop :: "Scroller \<Rightarrow> (nat \<Rightarrow> bool) \<Rightarrow> int \<Rightarrow> scroll_event block" where
  "ScrollToTop s scrollOk currentScroll r = ScrollUp s scrollOk currentScroll r"



section \<open>MouseMover (package stealth)\<close>

record Point =
  X :: real
  Y :: real

record MouseMover =
  bezierPoints :: int
  speedVariation :: real
  overshootProb :: real
  microCorrectionProb :: real

definition NewMouseMover :: "int \<Rightarrow> real \<Rightarrow> real \<Rightarrow> real \<Rightarrow> MouseMover" where
  "NewMouseMover bPoints speedVar overshootP microCorrectionP =
     \<lparr>bezierPoints = bPoints, speedVariation = speedVar, overshootProb = overshootP,
      microCorrectionProb = microCorrectionP\<rparr>"

text \<open>\<^verbatim>\<open>math.Atan2(y, x)\<close> on reals.\<close>

definition Atan2 :: "real \<Rightarrow> real \<Rightarrow> real" where
  "Atan2 y x =
     (if x > 0 then arctan (y / x)
      else if x < 0 then (if y \<ge> 0 then arctan (y / x) + pi else arctan (y / x) - pi)
      else if y > 0 then pi / 2
      else if y < 0 then - pi / 2
      else 0)"

definition binomialCoefficient :: "int \<Rightarrow> int \<Rightarrow> real" where
  "binomialCoefficient n k =
     (if k > n then 0
      else if k = 0 \<or> k = n then 1
      else fold (\<lambda>i result. result * real_of_int (n - int i) / real_of_int (int i + 1))
             [0..<nat k] 1)"

text \<open>
  \<^verbatim>\<open>bezierPoint\<close>: the loop runs over \<open>i = 0, \<dots>, n\<close> with \<open>n = len(controlPoints) - 1\<close>, that is
  over every index of the slice. \<^verbatim>\<open>math.Pow\<close> is only called with exponents that are
  natural numbers.
\<close>

definition bezierPoint :: "Point list \<Rightarrow> real \<Rightarrow> Point" where
  "bezierPoint controlPoints t =
     (let n = int (length controlPoints) - 1
      in fold (\<lambda>i p.
                 let coefficient =
                       binomialCoefficient n (int i) * (1 - t) ^ nat (n - int i) * t ^ i
                 in \<lparr>X = X p + coefficient * X (controlPoints ! i),
                     Y = Y p + coefficient * Y (controlPoints ! i)\<rparr>)
              [0..<length controlPoints] \<lparr>X = 0, Y = 0\<rparr>)"

text \<open>The intermediate control point \<open>i\<close>, from the uniform draw \<open>u\<close>.\<close>

definition controlPoint :: "Point \<Rightarrow> Point \<Rightarrow> int \<Rightarrow> nat \<Rightarrow> real \<Rightarrow> Point" where
  "controlPoint start end n i u =
     (let t = real i / real_of_int (n - 1);
          x = X start + (X end - X start) * t;
          y = Y start + (Y end - Y start) * t;
          distance = sqrt ((X end - X start) ^ 2 + (Y end - Y start) ^ 2);
          maxOffset = distance * 0.2;
          offset = (u * 2 - 1) * maxOffset;
          angle = Atan2 (Y end - Y start) (X end - X start) + pi / 2
      in \<lparr>X = x + offset * cos angle, Y = y + offset * sin angle\<rparr>)"

definition generateBezierPath ::
  "MouseMover \<Rightarrow> Point \<Rightarrow> Point \<Rightarrow> rng \<Rightarrow> failure + (Point list \<times> rng)" where
  "generateBezierPath m start end r =
     (let n = bezierPoints m in
      if n < 0 then Inl MakeSliceLen
      else if n = 0 then Inl IndexOutOfRange
      else
        let controlPoints0 = (replicate (nat n) \<lparr>X = 0, Y = 0\<rparr>)[0 := start, nat (n - 1) := end];
            (controlPoints, r1) =
               fold (\<lambda>i (cps, r).
                       let (u, r') = Float64 r
                       in (cps[i := controlPoint start end n i u], r'))
                    [1..<nat (n - 1)] (controlPoints0, r)
        in andThen (Intn 30 r1) (\<lambda>(k, r2).
           let numPoints = 20 + k
           in Inr (map (\<lambda>i. bezierPoint controlPoints (real i / real_of_int (numPoints - 1)))
                     [0..<nat numPoints], r2)))"











section \<open>Sequencing, draws and loops\<close>

lemma andThen_Inl [simp]: "andThen (Inl e) f = Inl e"
  by (simp add: andThen_def)

lemma andThen_Inr [simp]: "andThen (Inr x) f = f x"
  by (simp add: andThen_def)

lemma andThen_eq_Inr:
  "andThen m f = Inr y \<longleftrightarrow> (\<exists>x. m = Inr x \<and> f x = Inr y)"
  by (cases m) simp_all

lemma Intn_pos: "0 < n \<Longrightarrow> Intn n r = Inr (int (shd r) mod n, stl r)"
  by (simp add: Intn_def)

lemma Intn_nonpos: "n \<le> 0 \<Longrightarrow> Intn n r = Inl IntnPanic"
  by (simp add: Intn_def)

lemma Intn_eq_Inr:
  "Intn n r = Inr (k, r') \<longleftrightarrow> 0 < n \<and> k = int (shd r) mod n \<and> r' = stl r"
  by (auto simp: Intn_def)

lemma Intn_range: "Intn n r = Inr (k, r') \<Longrightarrow> 0 \<le> k \<and> k < n"
  by (auto simp: Intn_eq_Inr)


lemma seq_Inr:
  "p r = Inr (es1, r1) \<Longrightarrow> q r1 = Inr (es2, r2) \<Longrightarrow> seq p q r = Inr (es1 @ es2, r2)"
  by (simp add: seq_def)

lemma seq_eq_Inr:
  "seq p q r = Inr (es, r') \<longleftrightarrow>
     (\<exists>es1 r1 es2. p r = Inr (es1, r1) \<and> q r1 = Inr (es2, r') \<and> es = es1 @ es2)"
  by (auto simp: seq_def andThen_eq_Inr)


lemma forEach_total:
  "(\<And>x r. x \<in> set xs \<Longrightarrow> \<exists>es r'. body x r = Inr (es, r'))
     \<Longrightarrow> \<exists>es r'. forEach body xs r = Inr (es, r')"
proof (induction xs arbitrary: r)
  case Nil
  show ?case by simp
next
  case (Cons x xs)
  obtain es1 r1 where 1: "body x r = Inr (es1, r1)"
    using Cons.prems [of x r] by auto
  obtain es2 r2 where 2: "forEach body xs r1 = Inr (es2, r2)"
    using Cons.IH [of r1] Cons.prems by auto
  show ?case using 1 2 by (simp add: seq_def)
qed

lemma forEach_decomp:
  "forEach body xs r = Inr (es, r')
     \<Longrightarrow> \<exists>ess. es = concat ess \<and>
               list_all2 (\<lambda>x e. \<exists>r1 r2. body x r1 = Inr (e, r2)) xs ess"
proof (induction xs arbitrary: r es)
  case Nil
  then show ?case by simp
next
  case (Cons x xs)
  from Cons.prems obtain es1 r1 es2 where
    1: "body x r = Inr (es1, r1)" and 2: "forEach body xs r1 = Inr (es2, r')"
    and 3: "es = es1 @ es2"
    by (auto simp: seq_eq_Inr)
  from Cons.IH [OF 2] obtain ess where
    "es2 = concat ess" "list_all2 (\<lambda>x e. \<exists>r1 r2. body x r1 = Inr (e, r2)) xs ess"
    by blast
  with 1 3 have "es = concat (es1 # ess) \<and>
      list_all2 (\<lambda>x e. \<exists>r1 r2. body x r1 = Inr (e, r2)) (x # xs) (es1 # ess)"
    by auto
  then show ?case by blast
qed

lemma forEach_member:
  assumes "forEach body xs r = Inr (es, r')" and "e \<in> set es"
  shows "\<exists>x r1 es1 r2. x \<in> set xs \<and> body x r1 = Inr (es1, r2) \<and> e \<in> set es1"
proof -
  from forEach_decomp [OF assms(1)] obtain ess where
    es: "es = concat ess" and all: "list_all2 (\<lambda>x e. \<exists>r1 r2. body x r1 = Inr (e, r2)) xs ess"
    by blast
  from assms(2) es obtain es1 where "es1 \<in> set ess" "e \<in> set es1" by auto
  then obtain j where j: "j < length ess" "ess ! j = es1" by (auto simp: in_set_conv_nth)
  with all have "\<exists>r1 r2. body (xs ! j) r1 = Inr (es1, r2)" "j < length xs"
    by (auto simp: list_all2_conv_all_nth)
  with \<open>e \<in> set es1\<close> show ?thesis by (metis nth_mem)
qed


section \<open>Properties of the typer\<close>

lemma quo_nonneg: "0 \<le> a \<Longrightarrow> 0 < b \<Longrightarrow> quo a b = a div b"
  by (simp add: quo_def sgn_if)

lemma realChars_append: "realChars (xs @ ys) = realChars xs @ realChars ys"
  by (induction xs rule: realChars.induct) simp_all

lemma prePause_shape:
  "prePause t r = Inr (es, r') \<Longrightarrow>
     es = [] \<or> (\<exists>k. es = [PrePause ((200 + k) * Millisecond)] \<and> 0 \<le> k \<and> k < 500)"
  by (auto simp: prePause_def Let_def andThen_eq_Inr Intn_eq_Inr split: prod.splits if_splits)

lemma prePause_total: "\<exists>es r'. prePause t r = Inr (es, r')"
  by (simp add: prePause_def Let_def Intn_pos split: prod.splits)

lemma simulateTypo_shape:
  "simulateTypo t ms i r = Inr (es, r') \<Longrightarrow>
     es = [] \<or> (0 < i \<and> (\<exists>w d1 d2. es = [TypoChar w, TypoDelay d1, Backspace, BackspaceDelay d2]))"
  by (auto simp: simulateTypo_def Let_def andThen_eq_Inr split: prod.splits if_splits)

lemma simulateTypo_total: "\<exists>es r'. simulateTypo t ms i r = Inr (es, r')"
  by (simp add: simulateTypo_def getRandomChar_def Let_def Intn_pos split: prod.splits)

lemma typeChar_shape:
  "typeChar ms c r = Inr (es, r') \<Longrightarrow> \<exists>d. es = [RealChar c, CharDelay d]"
  by (auto simp: typeChar_def andThen_eq_Inr)

lemma typeChar_total: "0 < quo ms 2 \<Longrightarrow> \<exists>es r'. typeChar ms c r = Inr (es, r')"
  by (simp add: typeChar_def Intn_pos)

lemma punctuationPause_shape:
  "punctuationPause c r = Inr (es, r') \<Longrightarrow> es = [] \<or> (\<exists>d. es = [PunctPause d])"
  by (auto simp: punctuationPause_def andThen_eq_Inr split: if_splits)

lemma punctuationPause_total: "\<exists>es r'. punctuationPause c r = Inr (es, r')"
  by (simp add: punctuationPause_def Intn_pos)

lemma wordPause_shape:
  "wordPause c r = Inr (es, r') \<Longrightarrow> es = [] \<or> (\<exists>d. es = [WordPause d])"
  by (auto simp: wordPause_def andThen_eq_Inr split: if_splits)

lemma wordPause_total: "\<exists>es r'. wordPause c r = Inr (es, r')"
  by (simp add: wordPause_def Intn_pos)

lemma typeStep_shape:
  assumes "typeStep t ms (i, c) r = Inr (es, r')"
  shows "\<exists>pp ty d pu wp.
           es = pp @ ty @ [RealChar c, CharDelay d] @ pu @ wp \<and>
           (pp = [] \<or> (\<exists>k. pp = [PrePause ((200 + k) * Millisecond)] \<and> 0 \<le> k \<and> k < 500)) \<and>
           (ty = [] \<or> (0 < i \<and> (\<exists>w d1 d2. ty = [TypoChar w, TypoDelay d1, Backspace, BackspaceDelay d2]))) \<and>
           (pu = [] \<or> (\<exists>d. pu = [PunctPause d])) \<and>
           (wp = [] \<or> (\<exists>d. wp = [WordPause d]))"
proof -
  from assms obtain pp ty rc pu wp r1 r2 r3 r4 where
    a: "prePause t r = Inr (pp, r1)" and
    b: "simulateTypo t ms i r1 = Inr (ty, r2)" and
    c: "typeChar ms c r2 = Inr (rc, r3)" and
    d: "punctuationPause c r3 = Inr (pu, r4)" and
    e: "wordPause c r4 = Inr (wp, r')" and
    es: "es = pp @ ty @ rc @ pu @ wp"
    unfolding typeStep_def by (auto simp: seq_eq_Inr)
  from typeChar_shape [OF c] obtain dl where "rc = [RealChar c, CharDelay dl]" by blast
  with es prePause_shape [OF a] simulateTypo_shape [OF b] punctuationPause_shape [OF d]
    wordPause_shape [OF e]
  show ?thesis by blast
qed

lemma typeStep_total:
  assumes "0 < quo ms 2"
  shows "\<exists>es r'. typeStep t ms ic r = Inr (es, r')"
proof -
  obtain i c where ic: "ic = (i, c)" by (cases ic)
  obtain pp r1 where a: "prePause t r = Inr (pp, r1)" using prePause_total by blast
  obtain ty r2 where b: "simulateTypo t ms i r1 = Inr (ty, r2)" using simulateTypo_total by blast
  obtain rc r3 where c: "typeChar ms c r2 = Inr (rc, r3)" using typeChar_total [OF assms] by blast
  obtain pu r4 where d: "punctuationPause c r3 = Inr (pu, r4)"
    using punctuationPause_total by blast
  obtain wp r5 where e: "wordPause c r4 = Inr (wp, r5)" using wordPause_total by blast
  show ?thesis
    unfolding typeStep_def ic using a b c d e by (simp add: seq_def)
qed

lemma typeStep_realChars:
  "typeStep t ms (i, c) r = Inr (es, r') \<Longrightarrow> realChars es = [c]"
  by (drule typeStep_shape) (auto simp: realChars_append)

lemma typeStep_first_key:
  "typeStep t ms (0, c) r = Inr (es, r') \<Longrightarrow> filter isKeyboard es = [RealChar c]"
  by (drule typeStep_shape) auto

lemma typeStep_prePause:
  "typeStep t ms (i, c) r = Inr (es, r') \<Longrightarrow> PrePause d \<in> set es \<Longrightarrow>
     200 * Millisecond \<le> d \<and> d \<le> 699 * Millisecond"
  by (drule typeStep_shape) (auto simp: Millisecond_def)

lemma forEach_typeStep_realChars:
  "forEach (typeStep t ms) (rangeFrom i tx) r = Inr (es, r') \<Longrightarrow> realChars es = tx"
proof (induction tx arbitrary: i r es)
  case Nil
  then show ?case by simp
next
  case (Cons c cs)
  from Cons.prems obtain es1 r1 es2 where
    1: "typeStep t ms (i, c) r = Inr (es1, r1)" and
    2: "forEach (typeStep t ms) (rangeFrom (i + runeLen c) cs) r1 = Inr (es2, r')" and
    3: "es = es1 @ es2"
    by (auto simp: seq_eq_Inr)
  show ?case
    using typeStep_realChars [OF 1] Cons.IH [OF 2] 3 by (simp add: realChars_append)
qed

lemma forEach_typeStep_first_key:
  "forEach (typeStep t ms) (rangeFrom 0 tx) r = Inr (es, r') \<Longrightarrow>
     take 1 (filter isKeyboard es) = map RealChar (take 1 tx)"
proof (cases tx)
  case Nil
  assume "forEach (typeStep t ms) (rangeFrom 0 tx) r = Inr (es, r')"
  with Nil show ?thesis by simp
next
  case (Cons c cs)
  assume "forEach (typeStep t ms) (rangeFrom 0 tx) r = Inr (es, r')"
  with Cons obtain es1 r1 es2 where
    1: "typeStep t ms (0, c) r = Inr (es1, r1)" and 3: "es = es1 @ es2"
    by (auto simp: seq_eq_Inr)
  show ?thesis
    using typeStep_first_key [OF 1] 3 Cons by simp
qed

lemma set_rangeFrom: "x \<in> set (rangeFrom i tx) \<Longrightarrow> \<exists>j c. x = (j, c)"
  by (cases x) simp

lemma TypeText_eq_Inr:
  "TypeText t focusOk tx r = Inr (es, r') \<Longrightarrow>
     \<exists>ms r1. forEach (typeStep t ms) (rangeFrom 0 tx) r1 = Inr (es, r')"
  by (auto simp: TypeText_def rangeText_def Let_def andThen_eq_Inr split: if_splits)

lemma TypeText_total:
  assumes "focusOk" "0 < wpmMin t" "wpmMin t \<le> wpmMax t" "wpmMax t \<le> 6000"
  shows "\<exists>es r'. TypeText t focusOk tx r = Inr (es, r')"
proof -
  define k where "k = int (shd r) mod (wpmMax t - wpmMin t + 1)"
  define cpm where "cpm = (wpmMin t + k) * 5"
  have k: "0 \<le> k" "k \<le> wpmMax t - wpmMin t"
    using assms by (simp_all add: k_def) (smt (verit) pos_mod_bound)
  have cpm: "0 < cpm" "cpm \<le> 30000" using k assms by (simp_all add: cpm_def)
  have "2 \<le> 60000 div cpm"
    using zdiv_mono2 [of 60000 cpm 30000] cpm by simp
  then have ms: "0 < quo (quo 60000 cpm) 2"
    using cpm by (simp add: quo_nonneg)
  have I: "Intn (wpmMax t - wpmMin t + 1) r = Inr (k, stl r)"
    using assms by (simp add: Intn_pos k_def)
  obtain es r' where
    "forEach (typeStep t (quo 60000 cpm)) (rangeText tx) (stl r) = Inr (es, r')"
    using forEach_total [of "rangeText tx" "typeStep t (quo 60000 cpm)" "stl r"]
      typeStep_total [OF ms] by blast
  then show ?thesis
    using assms(1) I cpm by (simp add: TypeText_def Let_def cpm_def)
qed

lemma TypeText_run_a:
  "TypeText \<lparr>wpmMin = 60, wpmMax = 60, typoProbability = 0, pauseProbability = 1\<rparr> True
     (map of_char ''a'') ([0, 0, 499, 0, 0] @- sconst 0)
   = Inr ([PrePause (699 * Millisecond), RealChar 97, CharDelay (150 * Millisecond)], sconst 0)"
  by (simp add: TypeText_def rangeText_def runeLen_def typeStep_def seq_def prePause_def
      simulateTypo_def typeChar_def punctuationPause_def wordPause_def Intn_def Float64_def
      quo_def)

text \<open>
  Claim C5 as stated bounds the pause before a character by 500 ms. The run below, of the
  one-character text \<open>a\<close>, sleeps 699 ms before the character: the source draws the pause as
  \<^verbatim>\<open>200 + Intn(500)\<close>.
\<close>

theorem prePause_upto_699_counterexample:
  "TypeText \<lparr>wpmMin = 60, wpmMax = 60, typoProbability = 0, pauseProbability = 1\<rparr> True
     (map of_char ''a'') ([0, 0, 499, 0, 0] @- sconst 0)
   = Inr ([PrePause (699 * Millisecond), RealChar 97, CharDelay (150 * Millisecond)], sconst 0)
   \<and> \<not> 699 * Millisecond \<le> 500 * Millisecond"
  using TypeText_run_a by (simp add: Millisecond_def)

text \<open>
  Claim C5, amended: whenever \<^verbatim>\<open>TypeText\<close> sleeps before a character, the duration lies
  between 200 ms and 699 ms, for every profile, text, character and sequence of draws; the
  bounds do not depend on the typing speed.
\<close>

theorem TypeText_prePause_range:
  assumes "TypeText t focusOk tx r = Inr (es, r')" and "PrePause d \<in> set es"
  shows "200 * Millisecond \<le> d \<and> d \<le> 699 * Millisecond"
proof -
  from TypeText_eq_Inr [OF assms(1)] obtain ms r1 where
    "forEach (typeStep t ms) (rangeFrom 0 tx) r1 = Inr (es, r')" by blast
  from forEach_member [OF this assms(2)] obtain x r2 es1 r3 where
    "typeStep t ms x r2 = Inr (es1, r3)" "PrePause d \<in> set es1" by blast
  then show ?thesis by (cases x) (auto dest: typeStep_prePause)
qed

theorem TypeText_prePause_range_witness:
  "TypeText \<lparr>wpmMin = 60, wpmMax = 60, typoProbability = 0, pauseProbability = 1\<rparr> True
     (map of_char ''a'') ([0, 0, 499, 0, 0] @- sconst 0)
   = Inr ([PrePause (699 * Millisecond), RealChar 97, CharDelay (150 * Millisecond)], sconst 0)
   \<and> PrePause (699 * Millisecond)
       \<in> set [PrePause (699 * Millisecond), RealChar 97, CharDelay (150 * Millisecond)]
   \<and> 200 * Millisecond \<le> 699 * Millisecond \<and> 699 * Millisecond \<le> 699 * Millisecond"
  using TypeText_prePause_range [OF TypeText_run_a, of "699 * Millisecond"] TypeText_run_a
  by simp

text \<open>
  Claim C7: for every text and every sequence of draws, \<^verbatim>\<open>TypeText\<close> types each character
  of the text exactly once and in order, so the number of real (non-typo) character emissions
  is the length of the text; and the first keyboard event is the first character of the text,
  so no wrong character and no backspace precede the character at index 0. The profile is a
  typing speed of 1 to 6000 words per minute and the element takes the focus; for these the
  function returns.
\<close>

theorem TypeText_types_the_text:
  assumes "focusOk" and "0 < wpmMin t" and "wpmMin t \<le> wpmMax t" and "wpmMax t \<le> 6000"
  shows "\<exists>es r'. TypeText t focusOk tx r = Inr (es, r') \<and>
           realChars es = tx \<and> length (realChars es) = length tx \<and>
           take 1 (filter isKeyboard es) = map RealChar (take 1 tx)"
proof -
  from TypeText_total [OF assms] obtain es r' where
    run: "TypeText t focusOk tx r = Inr (es, r')" by blast
  from TypeText_eq_Inr [OF run] obtain ms r1 where
    loop: "forEach (typeStep t ms) (rangeFrom 0 tx) r1 = Inr (es, r')" by blast
  have "realChars es = tx" using forEach_typeStep_realChars [OF loop] .
  moreover have "take 1 (filter isKeyboard es) = map RealChar (take 1 tx)"
    using forEach_typeStep_first_key [OF loop] .
  ultimately show ?thesis using run by auto
qed

theorem TypeText_types_the_text_witness:
  "True \<and> (0::int) < 40 \<and> (40::int) \<le> 80 \<and> (80::int) \<le> 6000 \<and>
   (\<exists>es r'. TypeText \<lparr>wpmMin = 40, wpmMax = 80, typoProbability = 1, pauseProbability = 1 / 2\<rparr>
        True (map of_char ''ab.'') (sconst 7) = Inr (es, r') \<and>
      realChars es = map of_char ''ab.'' \<and> length (realChars es) = length (map of_char ''ab.'' :: rune list) \<and>
      take 1 (filter isKeyboard es) = map RealChar (take 1 (map of_char ''ab.'')))"
  using TypeText_types_the_text
    [of True "\<lparr>wpmMin = 40, wpmMax = 80, typoProbability = 1, pauseProbability = 1 / 2\<rparr>"
        "map of_char ''ab.''" "sconst 7"]
  by simp


section \<open>Properties of the scheduler and of construction\<close>

text \<open>
  Claim C1 says that with \<open>weekendActivity\<close> set, a Saturday time before the start hour is
  followed by the start hour of that same Saturday. The source takes the Saturday branch
  whatever \<open>weekendActivity\<close> is: on Saturday 2024-01-06 (day 19728) at 07:00, with the
  window 9 to 17 and weekend activity allowed, the loop sleeps until Monday 2024-01-08 at
  09:00 and returns then, although \<^verbatim>\<open>IsBusinessHours\<close> holds on that Saturday at 09:00.
\<close>

theorem WaitForBusinessHours_saturday_weekendActivity:
  "Weekday_of \<lparr>Day = 19728, Hour = 7, Minute = 0, Second = 0\<rparr> = Saturday
   \<and> Weekday_of \<lparr>Day = 19730, Hour = 9, Minute = 0, Second = 0\<rparr> = Monday
   \<and> nextBusinessTime
       \<lparr>businessHoursStart = 9, businessHoursEnd = 17, timezone = (), weekendActivity = True,
        breakDurationMin = 5, breakDurationMax = 15, breakProbability = 0\<rparr>
       \<lparr>Day = 19728, Hour = 7, Minute = 0, Second = 0\<rparr>
     = \<lparr>Day = 19730, Hour = 9, Minute = 0, Second = 0\<rparr>
   \<and> WaitForBusinessHours
       \<lparr>businessHoursStart = 9, businessHoursEnd = 17, timezone = (), weekendActivity = True,
        breakDurationMin = 5, breakDurationMax = 15, breakProbability = 0\<rparr>
       \<lparr>Day = 19728, Hour = 7, Minute = 0, Second = 0\<rparr>
     = Some \<lparr>Day = 19730, Hour = 9, Minute = 0, Second = 0\<rparr>
   \<and> IsBusinessHours
       \<lparr>businessHoursStart = 9, businessHoursEnd = 17, timezone = (), weekendActivity = True,
        breakDurationMin = 5, breakDurationMax = 15, breakProbability = 0\<rparr>
       \<lparr>Day = 19728, Hour = 9, Minute = 0, Second = 0\<rparr>"
  by (simp add: nextBusinessTime_def Weekday_of_def Date_def WaitForBusinessHours.simps
      IsBusinessHours_def sleepUntil_def Before_def)

text \<open>
  Claim C3 as stated makes construction fail on a probability outside \<open>[0, 1]\<close> and on an
  inverted pair of bounds. Here the scheduler is built with a break of 30 to 10 minutes and
  a break probability of 3/2, the typer and the scroller with inverted pairs and
  probabilities outside \<open>[0, 1]\<close>, and \<^verbatim>\<open>validateConfig\<close> accepts a configuration with all of
  these.
\<close>

theorem constructors_accept_invalid_counterexample:
  "NewScheduler (\<lambda>tz. if tz = ''UTC'' then Some () else None) 9 17 ''UTC'' False 30 10 (3 / 2)
     = Inr \<lparr>businessHoursStart = 9, businessHoursEnd = 17, timezone = (),
            weekendActivity = False, breakDurationMin = 30, breakDurationMax = 10,
            breakProbability = 3 / 2\<rparr>
   \<and> NewTyper 80 40 2 (- 1)
     = \<lparr>wpmMin = 80, wpmMax = 40, typoProbability = 2, pauseProbability = - 1\<rparr>
   \<and> NewScroller 900 100 (- 1) 7
     = \<lparr>speedMin = 900, speedMax = 100, scrollBackProbability = - 1,
        scrollPauseProbability = 7\<rparr>
   \<and> validateConfig (\<lambda>tz. if tz = ''UTC'' then Some () else None)
       \<lparr>Search_MaxResults = 1, Connections_DailyLimit = 1, Messaging_DailyLimit = 1,
        Browser_TimeoutSeconds = 1, Browser_UserAgents = [''agent''],
        Stealth_Mouse_BezierPoints = 5, Stealth_Mouse_SpeedVariation = 3,
        Stealth_Mouse_OvershootProbability = 2, Stealth_Mouse_MicroCorrectionProbability = - 1,
        Stealth_Typing_WPMMin = 80, Stealth_Typing_WPMMax = 40,
        Stealth_Typing_TypoProbability = 2, Stealth_Typing_PauseProbability = - 1,
        Stealth_Scrolling_SpeedMin = 900, Stealth_Scrolling_SpeedMax = 100,
        Stealth_Scrolling_ScrollBackProbability = - 1, Stealth_Scrolling_PauseProbability = 7,
        Stealth_Scheduling_BusinessHoursStart = 9, Stealth_Scheduling_BusinessHoursEnd = 17,
        Stealth_Scheduling_Timezone = ''UTC'', Stealth_Scheduling_WeekendActivity = False,
        Stealth_Scheduling_BreakDurationMin = 30, Stealth_Scheduling_BreakDurationMax = 10,
        Stealth_Scheduling_BreakProbability = 3 / 2\<rparr>
     = None"
  by (simp add: NewScheduler_def NewTyper_def NewScroller_def validateConfig_def)

text \<open>
  Claim C3, amended: \<^verbatim>\<open>NewScheduler\<close> returns an error exactly when the timezone identifier
  cannot be resolved, whatever the other fields are; \<^verbatim>\<open>validateConfig\<close> accepts a
  configuration exactly when the four limits are positive, a user agent is listed and the
  timezone can be resolved; and \<^verbatim>\<open>NewTyper\<close>, \<^verbatim>\<open>NewMouseMover\<close> and \<^verbatim>\<open>NewScroller\<close>, which
  have no error result, return for all arguments the component that holds exactly these
  arguments. No probability and no pair of bounds is examined.
\<close>

theorem construction_fails_iff_timezone:
  "((\<exists>e. NewScheduler LoadLocation bhStart bhEnd tz weekend brMin brMax brProb = Inl e)
      \<longleftrightarrow> LoadLocation tz = None)
   \<and> (validateConfig LoadLocation config = None
      \<longleftrightarrow> 0 < Search_MaxResults config \<and> 0 < Connections_DailyLimit config \<and>
          0 < Messaging_DailyLimit config \<and> 0 < Browser_TimeoutSeconds config \<and>
          Browser_UserAgents config \<noteq> [] \<and>
          LoadLocation (Stealth_Scheduling_Timezone config) \<noteq> None)
   \<and> NewTyper wMin wMax typoProb pauseProb
       = \<lparr>wpmMin = wMin, wpmMax = wMax, typoProbability = typoProb,
          pauseProbability = pauseProb\<rparr>
   \<and> NewMouseMover bPoints speedVar overshootP microCorrectionP
       = \<lparr>bezierPoints = bPoints, speedVariation = speedVar, overshootProb = overshootP,
          microCorrectionProb = microCorrectionP\<rparr>
   \<and> NewScroller sMin sMax scrollBackProb scrollPauseProb
       = \<lparr>speedMin = sMin, speedMax = sMax, scrollBackProbability = scrollBackProb,
          scrollPauseProbability = scrollPauseProb\<rparr>"
  by (auto simp: NewScheduler_def validateConfig_def NewTyper_def NewMouseMover_def
      NewScroller_def split: option.splits)


section \<open>Properties of the scroller\<close>


lemma quo_pos_iff: "0 < quo c 2 \<longleftrightarrow> 2 \<le> c"
proof (cases "0 \<le> c")
  case True
  then show ?thesis by (simp add: quo_nonneg) presburger
next
  case False
  then have "quo c 2 = - (\<bar>c\<bar> div 2)" by (simp add: quo_def sgn_if)
  moreover have "0 \<le> \<bar>c\<bar> div 2" by simp
  ultimately show ?thesis using False by linarith
qed


lemma scrollAmount_small: "c < 2 \<Longrightarrow> scrollAmount c r = Inl IntnPanic"
  using quo_pos_iff [of c] by (simp add: scrollAmount_def Intn_nonpos)















lemma div_less_2_iff:
  fixes n d :: int
  assumes "0 < n"
  shows "d div n < 2 \<longleftrightarrow> d < 2 * n"
proof -
  have m: "0 \<le> d mod n" "d mod n < n" using assms by simp_all
  have e: "d = n * (d div n) + d mod n" by simp
  show ?thesis
  proof
    assume "d div n < 2"
    then have "d div n \<le> 1" by simp
    then have "n * (d div n) \<le> n * 1" using assms by (intro mult_left_mono) simp_all
    with e m show "d < 2 * n" by linarith
  next
    assume a: "d < 2 * n"
    show "d div n < 2"
    proof (rule ccontr)
      assume "\<not> d div n < 2"
      then have "2 \<le> d div n" by simp
      then have "n * 2 \<le> n * (d div n)" using assms by (intro mult_left_mono) simp_all
      with e m a show False by linarith
    qed
  qed
qed

lemma upt_chunks: "0 < n \<Longrightarrow> [0..<nat n] = 0 # [1..<nat n]"
  by (simp add: upt_conv_Cons)

lemma forEach_first_fails:
  "body x r = Inl e \<Longrightarrow> forEach body (x # xs) r = Inl e"
  by (simp add: seq_def)

lemma ScrollDown_small:
  assumes "distance < 2 * (5 + int (shd r) mod 10)" and "0 \<le> distance"
  shows "ScrollDown s scrollOk distance r = Inl IntnPanic"
proof -
  define n where "n = 5 + int (shd r) mod 10"
  have n: "0 < n" by (simp add: n_def)
  have "distance div n < 2" using assms n unfolding n_def [symmetric]
    by (simp add: div_less_2_iff)
  then have c: "quo distance n < 2" using assms(2) n by (simp add: quo_nonneg)
  have "scrollDownStep s scrollOk n (quo distance n) 0 (stl r) = Inl IntnPanic"
    using scrollAmount_small [OF c] by (simp add: scrollDownStep_def)
  then have "forEach (scrollDownStep s scrollOk n (quo distance n)) [0..<nat n] (stl r)
      = Inl IntnPanic"
    using upt_chunks [OF n] forEach_first_fails by metis
  then show ?thesis
    by (simp add: ScrollDown_def Intn_pos Let_def n_def)
qed

lemma ScrollUp_small:
  assumes "distance < 2 * (5 + int (shd r) mod 10)" and "0 \<le> distance"
  shows "ScrollUp s scrollOk distance r = Inl IntnPanic"
proof -
  define n where "n = 5 + int (shd r) mod 10"
  have n: "0 < n" by (simp add: n_def)
  have "distance div n < 2" using assms n unfolding n_def [symmetric]
    by (simp add: div_less_2_iff)
  then have c: "quo distance n < 2" using assms(2) n by (simp add: quo_nonneg)
  have "scrollUpStep s scrollOk n (quo distance n) 0 (stl r) = Inl IntnPanic"
    using scrollAmount_small [OF c] by (simp add: scrollUpStep_def)
  then have "forEach (scrollUpStep s scrollOk n (quo distance n)) [0..<nat n] (stl r)
      = Inl IntnPanic"
    using upt_chunks [OF n] forEach_first_fails by metis
  then show ?thesis
    by (simp add: ScrollUp_def Intn_pos Let_def n_def)
qed

lemma TypeText_fast_panics:
  "TypeText (t\<lparr>wpmMin := 7000, wpmMax := 7000\<rparr>) True (c # cs) r = Inl IntnPanic"
proof -
  define t' where "t' = t\<lparr>wpmMin := 7000, wpmMax := 7000\<rparr>"
  have ms: "quo 60000 35000 = 1" by (simp add: quo_def)
  obtain pp r1 where a: "prePause t' (stl r) = Inr (pp, r1)" using prePause_total by blast
  obtain ty r2 where b: "simulateTypo t' 1 0 r1 = Inr (ty, r2)"
    using simulateTypo_total by blast
  have c: "typeChar 1 c r2 = Inl IntnPanic"
    by (simp add: typeChar_def quo_def Intn_nonpos)
  have "typeStep t' 1 (0, c) (stl r) = Inl IntnPanic"
    using a b c by (simp add: typeStep_def seq_def)
  then have "forEach (typeStep t' 1) (rangeText (c # cs)) (stl r) = Inl IntnPanic"
    by (simp add: rangeText_def seq_def)
  moreover have "wpmMin t' = 7000" "wpmMax t' = 7000" by (simp_all add: t'_def)
  ultimately have "TypeText t' True (c # cs) r = Inl IntnPanic"
    by (simp add: TypeText_def Intn_pos Let_def ms)
  then show ?thesis by (simp add: t'_def)
qed

text \<open>
  Claim C2 says that planning never fails, also for small and zero distances. In the source
  the jitter is drawn as \<^verbatim>\<open>Intn(chunkSize/2)\<close>, and \<^verbatim>\<open>Intn\<close> panics on an argument that is
  not positive: \<^verbatim>\<open>ScrollToTop\<close> on a page that is already at the top (offset 0),
  \<^verbatim>\<open>ScrollDown\<close> by 0, and \<^verbatim>\<open>ScrollToElement\<close> for an element 5 units below the middle of
  the viewport all panic, for every profile and every sequence of draws. Likewise
  \<^verbatim>\<open>TypeText\<close> panics at \<^verbatim>\<open>Intn(msPerChar/2)\<close> on every non-empty text when the typing speed
  is 7000 words per minute.
\<close>

theorem planners_panic:
  "ScrollToTop s scrollOk 0 r = Inl IntnPanic
   \<and> ScrollDown s scrollOk 0 r = Inl IntnPanic
   \<and> ScrollToElement s scrollOk 505 1000 0 r = Inl IntnPanic
   \<and> TypeText (t\<lparr>wpmMin := 7000, wpmMax := 7000\<rparr>) True (c # cs) r' = Inl IntnPanic"
proof -
  have n: "(0::int) < 2 * (5 + int (shd r) mod 10)" "(5::int) < 2 * (5 + int (shd r) mod 10)"
    by simp_all
  have "ScrollUp s scrollOk 0 r = Inl IntnPanic" using ScrollUp_small [OF n(1)] by simp
  moreover have "ScrollDown s scrollOk 0 r = Inl IntnPanic"
    using ScrollDown_small [OF n(1)] by simp
  moreover have "ScrollDown s scrollOk 5 r = Inl IntnPanic"
    using ScrollDown_small [OF n(2)] by simp
  ultimately show ?thesis
    using TypeText_fast_panics
    by (simp add: ScrollToTop_def ScrollToElement_def quo_def)
qed








section \<open>Properties of the mouse mover\<close>

lemma binomial_loop:
  "k \<le> n \<Longrightarrow>
     fold (\<lambda>i result. result * real_of_int (int n - int i) / real_of_int (int i + 1)) [0..<k] 1
       = real (n choose k)"
proof (induction k)
  case 0
  show ?case by simp
next
  case (Suc k)
  then have IH: "fold (\<lambda>i result. result * real_of_int (int n - int i) / real_of_int (int i + 1))
      [0..<k] 1 = real (n choose k)" and k: "k < n" by simp_all
  have "Suc k * (n choose Suc k) = (n - k) * (n choose k)"
    using k by (metis binomial_absorb_comp binomial_absorption)
  then have "real (Suc k) * real (n choose Suc k) = real (n - k) * real (n choose k)"
    by (metis of_nat_mult)
  then have "real (n choose Suc k) = real (n choose k) * real (n - k) / real (Suc k)"
    by (simp add: field_simps)
  also have "real (n - k) = real_of_int (int n - int k)" using k by simp
  also have "real (Suc k) = real_of_int (int k + 1)" by simp
  finally show ?case using IH by simp
qed

lemma binomialCoefficient_choose:
  "i \<le> n \<Longrightarrow> binomialCoefficient (int n) (int i) = real (n choose i)"
  using binomial_loop [of i n] by (auto simp: binomialCoefficient_def)

lemma fold_point_sum:
  "fold (\<lambda>i p. \<lparr>X = X p + f i, Y = Y p + g i\<rparr>) [0..<k] p0
     = \<lparr>X = X p0 + (\<Sum>i<k. f i), Y = Y p0 + (\<Sum>i<k. g i)\<rparr>"
  by (induction k) (simp_all add: add.assoc)

lemma bezierPoint_sum:
  "bezierPoint cps t =
     \<lparr>X = (\<Sum>i<length cps.
             binomialCoefficient (int (length cps) - 1) (int i)
               * (1 - t) ^ nat (int (length cps) - 1 - int i) * t ^ i * X (cps ! i)),
      Y = (\<Sum>i<length cps.
             binomialCoefficient (int (length cps) - 1) (int i)
               * (1 - t) ^ nat (int (length cps) - 1 - int i) * t ^ i * Y (cps ! i))\<rparr>"
  unfolding bezierPoint_def Let_def by (simp add: fold_point_sum)

text \<open>
  In exact arithmetic the weights of the curve add up to 1, so that equal control points
  give a curve that stays at that point. \<^verbatim>\<open>float64\<close> rounds the weights, and the points between
  the first and the last then differ from it in the last digits: \<open>bernstein_sum\<close>,
  \<open>bezierPoint_constant\<close> and \<open>generateBezierPath_collapses\<close> are facts of exact
  arithmetic only.
\<close>

lemma bernstein_sum:
  fixes t :: real
  shows "(\<Sum>i\<le>n. real (n choose i) * (1 - t) ^ (n - i) * t ^ i) = 1"
proof -
  have "(t + (1 - t)) ^ n = (\<Sum>i\<le>n. real (n choose i) * t ^ i * (1 - t) ^ (n - i))"
    by (rule binomial_ring)
  also have "\<dots> = (\<Sum>i\<le>n. real (n choose i) * (1 - t) ^ (n - i) * t ^ i)"
    by (rule sum.cong) simp_all
  finally show ?thesis by simp
qed

lemma bezierPoint_weights:
  assumes "length cps = Suc n"
  shows "bezierPoint cps t =
     \<lparr>X = (\<Sum>i\<le>n. real (n choose i) * (1 - t) ^ (n - i) * t ^ i * X (cps ! i)),
      Y = (\<Sum>i\<le>n. real (n choose i) * (1 - t) ^ (n - i) * t ^ i * Y (cps ! i))\<rparr>"
proof -
  have w: "binomialCoefficient (int (Suc n) - 1) (int i) * (1 - t) ^ nat (int (Suc n) - 1 - int i)
        = real (n choose i) * (1 - t) ^ (n - i)" if "i \<le> n" for i
  proof -
    have "nat (int (Suc n) - 1 - int i) = n - i" using that by simp
    moreover have "int (Suc n) - 1 = int n" by simp
    ultimately show ?thesis using binomialCoefficient_choose [OF that] by simp
  qed
  have s: "{..<Suc n} = {..n}" by auto
  show ?thesis
    unfolding bezierPoint_sum assms s using w by simp
qed

lemma bezierPoint_constant:
  assumes "cps \<noteq> []" and "\<forall>p \<in> set cps. p = c"
  shows "bezierPoint cps t = c"
proof -
  obtain n where n: "length cps = Suc n" using assms(1) by (cases cps) auto
  have e: "cps ! i = c" if "i \<le> n" for i using assms(2) n that by simp
  have "(\<Sum>i\<le>n. real (n choose i) * (1 - t) ^ (n - i) * t ^ i * X (cps ! i))
      = (\<Sum>i\<le>n. real (n choose i) * (1 - t) ^ (n - i) * t ^ i) * X c"
    using e by (simp add: sum_distrib_right)
  moreover have "(\<Sum>i\<le>n. real (n choose i) * (1 - t) ^ (n - i) * t ^ i * Y (cps ! i))
      = (\<Sum>i\<le>n. real (n choose i) * (1 - t) ^ (n - i) * t ^ i) * Y c"
    using e by (simp add: sum_distrib_right)
  ultimately show ?thesis
    unfolding bezierPoint_weights [OF n] by (simp add: bernstein_sum)
qed


lemma controlPoint_same: "controlPoint s s n i u = s"
  by (simp add: controlPoint_def Let_def)

lemma control_loop:
  fixes f :: "nat \<Rightarrow> real \<Rightarrow> Point"
  assumes "fold (\<lambda>i (cps, r). let (u, r') = Float64 r in (cps[i := f i u], r')) [a..<b] (cps0, r0)
             = (cps, r)"
  shows "length cps = length cps0 \<and>
         (\<forall>j<length cps0. if a \<le> j \<and> j < b then (\<exists>u. cps ! j = f j u) else cps ! j = cps0 ! j)"
  using assms
proof (induction b arbitrary: cps r)
  case 0
  then show ?case by simp
next
  case (Suc b)
  show ?case
  proof (cases "a \<le> b")
    case False
    with Suc.prems show ?thesis by auto
  next
    case True
    let ?step = "\<lambda>i (cps, r). let (u, r') = Float64 r in (cps[i := f i u], r')"
    obtain cps1 r1 where 1: "fold ?step [a..<b] (cps0, r0) = (cps1, r1)"
      by (cases "fold ?step [a..<b] (cps0, r0)")
    from Suc.prems True 1 have cps: "cps = cps1[b := f b (fst (Float64 r1))]"
      by (simp add: Let_def split: prod.splits)
    from Suc.IH [OF 1] have IH: "length cps1 = length cps0"
      "\<forall>j<length cps0. if a \<le> j \<and> j < b then (\<exists>u. cps1 ! j = f j u) else cps1 ! j = cps0 ! j"
      by simp_all
    show ?thesis
    proof (intro conjI allI impI)
      show "length cps = length cps0" using cps IH(1) by simp
    next
      fix j assume j: "j < length cps0"
      show "if a \<le> j \<and> j < Suc b then (\<exists>u. cps ! j = f j u) else cps ! j = cps0 ! j"
      proof (cases "j = b")
        case True
        with j IH(1) cps \<open>a \<le> b\<close> show ?thesis by auto
      next
        case False
        then have "cps ! j = cps1 ! j" using cps by simp
        moreover have "(a \<le> j \<and> j < Suc b) = (a \<le> j \<and> j < b)" using False by auto
        ultimately show ?thesis using IH(2) j by simp
      qed
    qed
  qed
qed

lemma generateBezierPath_shape:
  assumes n: "1 \<le> bezierPoints m"
  shows "\<exists>cps k r1.
           generateBezierPath m s e r
             = Inr (map (\<lambda>i. bezierPoint cps (real i / real_of_int (20 + k - 1)))
                      [0..<nat (20 + k)], r1) \<and>
           0 \<le> k \<and> k < 30 \<and> cps \<noteq> [] \<and>
           cps ! 0 = (if bezierPoints m = 1 then e else s) \<and>
           (\<forall>p \<in> set cps. p = s \<or> p = e \<or> (\<exists>j u. p = controlPoint s e (bezierPoints m) j u))"
proof -
  define N where "N = bezierPoints m"
  define cps0 where "cps0 = (replicate (nat N) \<lparr>X = 0, Y = 0\<rparr>)[0 := s, nat (N - 1) := e]"
  let ?step = "\<lambda>i (cps, r). let (u, r') = Float64 r in (cps[i := controlPoint s e N i u], r')"
  obtain cps r1 where loop: "fold ?step [1..<nat (N - 1)] (cps0, r) = (cps, r1)"
    by (cases "fold ?step [1..<nat (N - 1)] (cps0, r)")
  define k where "k = int (shd r1) mod 30"
  have N: "1 \<le> N" using n by (simp add: N_def)
  have len0: "length cps0 = nat N" by (simp add: cps0_def)
  from control_loop [OF loop] have
    len: "length cps = nat N" and
    el: "\<forall>j<nat N. if 1 \<le> j \<and> j < nat (N - 1)
                    then (\<exists>u. cps ! j = controlPoint s e N j u) else cps ! j = cps0 ! j"
    using len0 by simp_all
  have ne: "cps \<noteq> []" using len N by auto
  have c0: "cps ! 0 = (if N = 1 then e else s)"
  proof -
    have "cps ! 0 = cps0 ! 0" using el N by auto
    also have "\<dots> = (if N = 1 then e else s)"
      using N by (auto simp: cps0_def nth_list_update)
    finally show ?thesis .
  qed
  have all: "\<forall>p \<in> set cps. p = s \<or> p = e \<or> (\<exists>j u. p = controlPoint s e N j u)"
  proof
    fix p assume "p \<in> set cps"
    then obtain j where j: "j < nat N" "p = cps ! j" using len by (auto simp: in_set_conv_nth)
    show "p = s \<or> p = e \<or> (\<exists>j u. p = controlPoint s e N j u)"
    proof (cases "1 \<le> j \<and> j < nat (N - 1)")
      case True
      with el j show ?thesis by auto
    next
      case False
      then have "j = 0 \<or> j = nat (N - 1)" using j by auto
      moreover have "cps ! j = cps0 ! j" using el j False by auto
      ultimately show ?thesis using j N by (auto simp: cps0_def nth_list_update)
    qed
  qed
  have "generateBezierPath m s e r
      = Inr (map (\<lambda>i. bezierPoint cps (real i / real_of_int (20 + k - 1))) [0..<nat (20 + k)],
             stl r1)"
    using N loop
    by (simp add: generateBezierPath_def Let_def N_def [symmetric] cps0_def [symmetric]
        Intn_pos k_def)
  moreover have "0 \<le> k" "k < 30" by (simp_all add: k_def)
  ultimately show ?thesis using ne c0 all unfolding N_def by blast
qed

lemma generateBezierPath_collapses:
  assumes "1 \<le> bezierPoints m"
  shows "\<exists>path r1. generateBezierPath m s s r = Inr (path, r1) \<and> 20 \<le> length path \<and>
           (\<forall>p \<in> set path. p = s)"
proof -
  from generateBezierPath_shape [OF assms, of s s r] obtain cps k r1 where
    g: "generateBezierPath m s s r
          = Inr (map (\<lambda>i. bezierPoint cps (real i / real_of_int (20 + k - 1)))
                   [0..<nat (20 + k)], r1)" and
    k: "0 \<le> k" and ne: "cps \<noteq> []" and
    all: "\<forall>p \<in> set cps. p = s \<or> p = s \<or> (\<exists>j u. p = controlPoint s s (bezierPoints m) j u)"
    by blast
  from all have "\<forall>p \<in> set cps. p = s" by (auto simp: controlPoint_same)
  then have "bezierPoint cps t = s" for t using bezierPoint_constant [OF ne] by blast
  then show ?thesis using g k by auto
qed
















section \<open>Properties of the movement\<close>

















end
